theory Spec2Isabelle
  imports Complex_Main "HOL-Library.Multiset" "HOL-Library.Word"
begin

section \<open>Hybrid parallelism benchmark: the data model\<close>

text \<open>
  The program is \<^verbatim>\<open>benchmark_hybrid_parallelism.py\<close>. Everything it consumes from
  outside (the directory walk, \<^verbatim>\<open>stat\<close>, file contents, the two hashing libraries,
  \<^verbatim>\<open>cpu_count\<close>, \<^verbatim>\<open>time.perf_counter\<close>) is a field of the record \<open>env\<close>; what it
  changes (the clock that has been read, the calls it made, the lines it printed) is
  the record \<open>world\<close>, passed through every function.

  Times are Python floats in the source; here they are reals, so rounding is not
  modelled. A path is a string, a payload a list of bytes.
\<close>

type_synonym path = string
type_synonym bytes = "8 word list"
type_synonym digest = "64 word"

record env =
  HAS_RUST :: bool
  HAS_XXHASH :: bool
  batch_xxh64 :: "(bytes list \<Rightarrow> digest list) option"
  dir_exists :: "path \<Rightarrow> bool"
  os_walk :: "path \<Rightarrow> (path \<times> path list \<times> path list) list"
  stat_size :: "path \<Rightarrow> nat option"
  file_contents :: "path \<Rightarrow> bytes option"
  cpu_count :: nat
  clock :: "nat \<Rightarrow> real"

text \<open>
  \<open>batch_xxh64 = None\<close> is the source's \<^verbatim>\<open>batch_xxh64 is None\<close>; \<open>os_walk d\<close> is the
  sequence of \<^verbatim>\<open>(root, dirs, filenames)\<close> triples that \<^verbatim>\<open>os.walk(d)\<close> yields;
  \<open>stat_size p = None\<close> and \<open>file_contents p = None\<close> stand for the \<^verbatim>\<open>OSError\<close> that
  \<^verbatim>\<open>stat\<close> and \<^verbatim>\<open>open\<close>/\<^verbatim>\<open>read\<close> raise; \<open>clock k\<close> is what the \<open>k\<close>-th call of
  \<^verbatim>\<open>time.perf_counter()\<close> returns.
\<close>

section \<open>The corpus sampler: \<^verbatim>\<open>get_files\<close>\<close>

definition joinpath :: "path \<Rightarrow> path \<Rightarrow> path" where
  "joinpath dirpath filename = dirpath @ ''/'' @ filename"

text \<open>The inner loop of \<^verbatim>\<open>get_files\<close>: one entry per file that can be stat'd.\<close>

fun stat_files :: "env \<Rightarrow> path \<Rightarrow> path list \<Rightarrow> (path \<times> nat) list" where
  "stat_files E dirpath [] = []"
| "stat_files E dirpath (filename # filenames) =
     (let filepath = joinpath dirpath filename in
      case stat_size E filepath of
        Some sz \<Rightarrow> (filepath, sz) # stat_files E dirpath filenames
      | None \<Rightarrow> stat_files E dirpath filenames)"

text \<open>The outer loop, over the triples of the walk.\<close>

fun walk_files :: "env \<Rightarrow> (path \<times> path list \<times> path list) list \<Rightarrow> (path \<times> nat) list" where
  "walk_files E [] = []"
| "walk_files E ((dirpath, dirs, filenames) # rest) =
     stat_files E dirpath filenames @ walk_files E rest"

text \<open>
  Python's slice \<^verbatim>\<open>xs[:m]\<close>: the first \<open>m\<close> elements, and for a negative \<open>m\<close> all but
  the last \<open>-m\<close>.
\<close>

definition py_slice_to :: "'a list \<Rightarrow> int \<Rightarrow> 'a list" where
  "py_slice_to xs m =
     (if 0 \<le> m then take (nat m) xs else take (length xs - nat (- m)) xs)"

text \<open>
  \<^verbatim>\<open>files.sort(key=lambda x: x[1])\<close> is a stable sort on the size; \<open>sort_key\<close> is the
  stable sort of the library.
\<close>

definition get_files :: "env \<Rightarrow> path \<Rightarrow> int \<Rightarrow> (path \<times> nat) list" where
  "get_files E directory max_files =
     py_slice_to (sort_key snd (walk_files E (os_walk E directory))) max_files"

text \<open>The paths that one call of \<^verbatim>\<open>get_files\<close> passes to \<^verbatim>\<open>stat\<close>.\<close>

definition walked_paths :: "(path \<times> path list \<times> path list) list \<Rightarrow> path list" where
  "walked_paths triples =
     concat (map (\<lambda>(dirpath, dirs, filenames). map (joinpath dirpath) filenames) triples)"

text \<open>The directory of the end-to-end scenario: three files of 10, 1000 and 100 bytes.\<close>

definition three_files :: env where
  "three_files =
     \<lparr>HAS_RUST = True, HAS_XXHASH = True, batch_xxh64 = None,
      dir_exists = (\<lambda>p. p = ''d''),
      os_walk = (\<lambda>p. if p = ''d'' then [(''d'', [], [''a'', ''b'', ''c''])] else []),
      stat_size = (\<lambda>p. if p = ''d/a'' then Some 10 else if p = ''d/b'' then Some 1000
                        else if p = ''d/c'' then Some 100 else None),
      file_contents = (\<lambda>p. None),
      cpu_count = 1,
      clock = (\<lambda>k. real k)\<rparr>"

section \<open>Effects: the clock, the calls made, the lines printed\<close>

datatype primitive = Rust_xxh64 | C_xxh64_digest

text \<open>
  What a run does to the outside, in the order it does it: a file read, one call of a
  per-item hashing primitive (\<^verbatim>\<open>xxh64(data, 0)\<close> or \<^verbatim>\<open>xxhash.xxh64_digest(data)\<close>) on a
  payload, one call of \<^verbatim>\<open>batch_xxh64\<close> on a list of payloads.
\<close>

datatype event = EvRead path | EvHash primitive bytes | EvBatch "bytes list"

text \<open>A printed line: its label and the numbers formatted into it.\<close>

datatype line = Line string "real list"

record world =
  ticks :: nat
  trace :: "event list"
  out :: "line list"

datatype failure = SysExit int | ZeroDivisionError | ValueError

definition perf_counter :: "env \<Rightarrow> world \<Rightarrow> real \<times> world" where
  "perf_counter E w = (clock E (ticks w), w\<lparr>ticks := Suc (ticks w)\<rparr>)"

definition emit :: "event \<Rightarrow> world \<Rightarrow> world" where
  "emit e w = w\<lparr>trace := trace w @ [e]\<rparr>"

definition py_print :: "line \<Rightarrow> world \<Rightarrow> world" where
  "py_print l w = w\<lparr>out := out w @ [l]\<rparr>"

text \<open>Python's \<^verbatim>\<open>a / b\<close> on numbers: \<^verbatim>\<open>ZeroDivisionError\<close> when \<open>b\<close> is zero.\<close>

definition py_div :: "real \<Rightarrow> real \<Rightarrow> failure + real" where
  "py_div a b = (if b = 0 then Inl ZeroDivisionError else Inr (a / b))"

text \<open>\<^verbatim>\<open>read_file\<close>: the contents, or \<^verbatim>\<open>b''\<close> when anything is raised.\<close>

definition read_file :: "env \<Rightarrow> path \<Rightarrow> bytes" where
  "read_file E path = (case file_contents E path of Some data \<Rightarrow> data | None \<Rightarrow> [])"

text \<open>A call of \<^verbatim>\<open>read_file\<close>, recorded in the trace.\<close>

definition call_read_file :: "env \<Rightarrow> path \<Rightarrow> world \<Rightarrow> bytes \<times> world" where
  "call_read_file E path w = (read_file E path, emit (EvRead path) w)"

section \<open>The thread pool\<close>

text \<open>
  A function handed to \<^verbatim>\<open>executor.map\<close> runs on a worker thread, interleaved with the
  other workers. It is written here as the sequence of its actions on the world, each
  with the continuation that receives the action's answer, so that the pool can run it
  one action at a time.
\<close>

datatype 'r prog =
    Return 'r
  | Read_file path "bytes \<Rightarrow> 'r prog"
  | Perf_counter "real \<Rightarrow> 'r prog"
  | Hash primitive bytes "'r prog"

text \<open>
  The nested function \<^verbatim>\<open>worker\<close> of \<^verbatim>\<open>benchmark_python_threading_rust\<close> (with
  \<open>Rust_xxh64\<close>) and of \<^verbatim>\<open>benchmark_c_threading\<close> (with \<open>C_xxh64_digest\<close>): the two differ
  in the primitive they call and in nothing else.
\<close>

definition worker :: "primitive \<Rightarrow> path \<Rightarrow> real prog" where
  "worker prim filepath =
     Read_file filepath (\<lambda>data.
       if data = [] then Return 0
       else Perf_counter (\<lambda>start.
              Hash prim data
                (Perf_counter (\<lambda>stop. Return ((stop - start) * 1000000)))))"

text \<open>The nested function \<^verbatim>\<open>read_worker\<close> of the hybrid strategy.\<close>

definition read_worker :: "path \<Rightarrow> bytes prog" where
  "read_worker filepath = Read_file filepath (\<lambda>data. Return data)"

text \<open>One action of a program.\<close>

fun step_prog :: "env \<Rightarrow> 'r prog \<Rightarrow> world \<Rightarrow> 'r prog \<times> world" where
  "step_prog E (Return r) w = (Return r, w)"
| "step_prog E (Read_file p k) w = (let (data, w') = call_read_file E p w in (k data, w'))"
| "step_prog E (Perf_counter k) w = (let (t, w') = perf_counter E w in (k t, w'))"
| "step_prog E (Hash prim data k) w = (k, emit (EvHash prim data) w)"

text \<open>A program run to its end with nothing in between.\<close>

primrec run_prog :: "env \<Rightarrow> 'r prog \<Rightarrow> world \<Rightarrow> 'r \<times> world" where
  "run_prog E (Return r) = (\<lambda>w. (r, w))"
| "run_prog E (Read_file p k) =
     (\<lambda>w. run_prog E (k (fst (call_read_file E p w))) (snd (call_read_file E p w)))"
| "run_prog E (Perf_counter k) =
     (\<lambda>w. run_prog E (k (fst (perf_counter E w))) (snd (perf_counter E w)))"
| "run_prog E (Hash prim data k) = (\<lambda>w. run_prog E k (emit (EvHash prim data) w))"

text \<open>
  \<^verbatim>\<open>executor.map(fn, xs)\<close> submits one call per element, in order, and keeps the futures
  in that order. A future is waiting in the queue, running on a thread, or finished
  with its result.
\<close>

datatype 'r future = Pending "'r prog" | Running "'r prog" | Finished 'r

fun is_Running :: "'r future \<Rightarrow> bool" where
  "is_Running (Running p) = True"
| "is_Running f = False"

fun is_Pending :: "'r future \<Rightarrow> bool" where
  "is_Pending (Pending p) = True"
| "is_Pending f = False"

text \<open>
  The futures that can move next: each one running, and the head of the queue when a
  thread is free (fewer than \<open>max_workers\<close> calls are running).
\<close>

definition runnable :: "nat \<Rightarrow> 'r future list \<Rightarrow> nat list" where
  "runnable max_workers fs =
     (let running = filter (\<lambda>i. is_Running (fs ! i)) [0..<length fs];
          pending = filter (\<lambda>i. is_Pending (fs ! i)) [0..<length fs]
      in running @ (if length running < max_workers then take 1 pending else []))"

text \<open>A future moves by one action of its call; a call that has returned is finished.\<close>

fun step_future :: "env \<Rightarrow> 'r future \<Rightarrow> world \<Rightarrow> 'r future \<times> world" where
  "step_future E (Finished r) w = (Finished r, w)"
| "step_future E (Pending p) w =
     (case p of Return r \<Rightarrow> (Finished r, w)
      | _ \<Rightarrow> (let (p', w') = step_prog E p w in (Running p', w')))"
| "step_future E (Running p) w =
     (case p of Return r \<Rightarrow> (Finished r, w)
      | _ \<Rightarrow> (let (p', w') = step_prog E p w in (Running p', w')))"

text \<open>
  The interleaving is not the program's to choose: it is the schedule, a list of
  numbers, each picking which runnable future moves next.
\<close>

fun run_pool :: "env \<Rightarrow> nat \<Rightarrow> nat list \<Rightarrow> 'r future list \<Rightarrow> world \<Rightarrow> 'r future list \<times> world" where
  "run_pool E max_workers [] fs w = (fs, w)"
| "run_pool E max_workers (c # cs) fs w =
     (case runnable max_workers fs of
        [] \<Rightarrow> (fs, w)
      | i # rest \<Rightarrow>
          (let j = (i # rest) ! (c mod length (i # rest));
               (f', w') = step_future E (fs ! j) w
           in run_pool E max_workers cs (fs[j := f']) w'))"

text \<open>
  Leaving the \<^verbatim>\<open>with\<close> block waits for every call; \<^verbatim>\<open>list(executor.map(...))\<close> takes
  the results of the futures in the order of submission. When the schedule ends before
  the calls do, the calls left finish one after the other.
\<close>

fun join_all :: "env \<Rightarrow> 'r future list \<Rightarrow> world \<Rightarrow> 'r list \<times> world" where
  "join_all E [] w = ([], w)"
| "join_all E (Finished r # fs) w = (let (rs, w') = join_all E fs w in (r # rs, w'))"
| "join_all E (Pending p # fs) w =
     (let (r, w1) = run_prog E p w; (rs, w2) = join_all E fs w1 in (r # rs, w2))"
| "join_all E (Running p # fs) w =
     (let (r, w1) = run_prog E p w; (rs, w2) = join_all E fs w1 in (r # rs, w2))"

text \<open>
  \<^verbatim>\<open>ThreadPoolExecutor(max_workers=n)\<close> raises \<^verbatim>\<open>ValueError\<close> unless \<open>n\<close> is positive.
\<close>

definition executor_map ::
  "env \<Rightarrow> int \<Rightarrow> nat list \<Rightarrow> ('a \<Rightarrow> 'r prog) \<Rightarrow> 'a list \<Rightarrow> world \<Rightarrow> (failure + 'r list) \<times> world" where
  "executor_map E max_workers sched fn xs w =
     (if max_workers \<le> 0 then (Inl ValueError, w)
      else (let (fs, w1) = run_pool E (nat max_workers) sched (map (\<lambda>x. Pending (fn x)) xs) w;
                (rs, w2) = join_all E fs w1
            in (Inr rs, w2)))"

section \<open>The four strategies\<close>

definition benchmark_python_threading_rust ::
  "env \<Rightarrow> nat list \<Rightarrow> (path \<times> nat) list \<Rightarrow> int \<Rightarrow> world \<Rightarrow> (failure + real \<times> real list) \<times> world" where
  "benchmark_python_threading_rust E sched files num_threads w =
     (if \<not> HAS_RUST E then (Inr (0, []), w)
      else (let (start, w1) = perf_counter E w in
            case executor_map E num_threads sched (worker Rust_xxh64) (map fst files) w1 of
              (Inl e, w2) \<Rightarrow> (Inl e, w2)
            | (Inr latencies, w2) \<Rightarrow>
                (let (stop, w3) = perf_counter E w2;
                     total_time = stop - start
                 in (Inr (total_time, latencies), w3))))"

definition benchmark_c_threading ::
  "env \<Rightarrow> nat list \<Rightarrow> (path \<times> nat) list \<Rightarrow> int \<Rightarrow> world \<Rightarrow> (failure + real \<times> real list) \<times> world" where
  "benchmark_c_threading E sched files num_threads w =
     (if \<not> HAS_XXHASH E then (Inr (0, []), w)
      else (let (start, w1) = perf_counter E w in
            case executor_map E num_threads sched (worker C_xxh64_digest) (map fst files) w1 of
              (Inl e, w2) \<Rightarrow> (Inl e, w2)
            | (Inr latencies, w2) \<Rightarrow>
                (let (stop, w3) = perf_counter E w2;
                     total_time = stop - start
                 in (Inr (total_time, latencies), w3))))"

text \<open>
  The sequential read loop of \<^verbatim>\<open>benchmark_rust_parallel_batch\<close>: every path is read,
  a payload that is not empty is appended.
\<close>

fun read_loop :: "env \<Rightarrow> (path \<times> nat) list \<Rightarrow> world \<Rightarrow> bytes list \<times> world" where
  "read_loop E [] w = ([], w)"
| "read_loop E ((filepath, sz) # files) w =
     (let (data, w1) = call_read_file E filepath w;
          (data_list, w2) = read_loop E files w1
      in ((if data \<noteq> [] then data # data_list else data_list), w2))"

text \<open>
  What the two batch strategies share, word for word in the source, from
  \<^verbatim>\<open>process_start = time.perf_counter()\<close> to the \<^verbatim>\<open>return\<close>. The batch primitive is
  \<open>batch\<close>; only the number of digests it returns is used.
\<close>

definition process_batch ::
  "env \<Rightarrow> (bytes list \<Rightarrow> digest list) \<Rightarrow> real \<Rightarrow> bytes list \<Rightarrow> world \<Rightarrow> (failure + real \<times> real list) \<times> world" where
  "process_batch E batch read_time data_list w =
     (let (process_start, w1) = perf_counter E w;
          results = batch data_list;
          w2 = emit (EvBatch data_list) w1;
          (process_stop, w3) = perf_counter E w2;
          process_time = process_stop - process_start;
          total_time = read_time + process_time
      in case (if results \<noteq> []
               then (case py_div (process_time * 1000000) (real (length results)) of
                       Inl e \<Rightarrow> Inl e
                     | Inr q \<Rightarrow> Inr (replicate (length results) q))
               else Inr [])
         of Inl e \<Rightarrow> (Inl e, w3)
          | Inr latencies \<Rightarrow>
              (Inr (process_time, latencies),
               py_print (Line ''Processing time'' [process_time])
                 (py_print (Line ''I/O time'' [read_time]) w3)))"

text \<open>
  \<^verbatim>\<open>if not HAS_RUST or batch_xxh64 is None: return 0, []\<close> is the \<open>None\<close> case below; with
  \<^verbatim>\<open>HAS_RUST\<close> false the name \<^verbatim>\<open>batch_xxh64\<close> is not looked at.
\<close>

definition benchmark_rust_parallel_batch ::
  "env \<Rightarrow> (path \<times> nat) list \<Rightarrow> world \<Rightarrow> (failure + real \<times> real list) \<times> world" where
  "benchmark_rust_parallel_batch E files w =
     (case (if HAS_RUST E then batch_xxh64 E else None) of
        None \<Rightarrow> (Inr (0, []), w)
      | Some batch \<Rightarrow>
          (let (read_start, w1) = perf_counter E w;
               (data_list, w2) = read_loop E files w1;
               (read_stop, w3) = perf_counter E w2;
               read_time = read_stop - read_start
           in process_batch E batch read_time data_list w3))"

text \<open>
  The read phase of the hybrid strategy: \<^verbatim>\<open>read_worker\<close> mapped over the paths on the
  pool, then the empty payloads filtered out.
\<close>

definition read_files_parallel ::
  "env \<Rightarrow> nat list \<Rightarrow> (path \<times> nat) list \<Rightarrow> int \<Rightarrow> world \<Rightarrow> (failure + bytes list) \<times> world" where
  "read_files_parallel E sched files num_threads w =
     (case executor_map E num_threads sched read_worker (map fst files) w of
        (Inl e, w1) \<Rightarrow> (Inl e, w1)
      | (Inr data_list, w1) \<Rightarrow> (Inr (filter (\<lambda>d. d \<noteq> []) data_list), w1))"

definition benchmark_rust_parallel_batch_with_reading ::
  "env \<Rightarrow> nat list \<Rightarrow> (path \<times> nat) list \<Rightarrow> int \<Rightarrow> world \<Rightarrow> (failure + real \<times> real list) \<times> world" where
  "benchmark_rust_parallel_batch_with_reading E sched files num_threads w =
     (case (if HAS_RUST E then batch_xxh64 E else None) of
        None \<Rightarrow> (Inr (0, []), w)
      | Some batch \<Rightarrow>
          (let (read_start, w1) = perf_counter E w in
           case read_files_parallel E sched files num_threads w1 of
             (Inl e, w2) \<Rightarrow> (Inl e, w2)
           | (Inr data_list, w2) \<Rightarrow>
               (let (read_stop, w3) = perf_counter E w2;
                    read_time = read_stop - read_start
                in process_batch E batch read_time data_list w3)))"

section \<open>The report: \<^verbatim>\<open>main\<close>\<close>

text \<open>
  A statement that raises ends the function: \<open>then_do\<close> runs the rest only after a
  normal return. Separator and banner lines, and the line about the configured rayon
  threads (inside a \<^verbatim>\<open>try\<close> whose \<^verbatim>\<open>except\<close> passes), print nothing the benchmark
  measured and are left out.
\<close>

definition then_do ::
  "(failure + 'a) \<times> world \<Rightarrow> ('a \<Rightarrow> world \<Rightarrow> (failure + 'b) \<times> world) \<Rightarrow> (failure + 'b) \<times> world" where
  "then_do m f = (case m of (Inl e, w) \<Rightarrow> (Inl e, w) | (Inr x, w) \<Rightarrow> f x w)"

text \<open>
  The three prints after each benchmark call: the time under its label, the average
  latency when the latency list is not empty, the throughput
  \<^verbatim>\<open>total_size / time / 1e6\<close>.
\<close>

definition report_strategy ::
  "string \<Rightarrow> real \<Rightarrow> real \<Rightarrow> real list \<Rightarrow> world \<Rightarrow> (failure + unit) \<times> world" where
  "report_strategy label total_size t latencies w =
     (let w1 = py_print (Line label [t]) w;
          w2 = (if latencies \<noteq> []
                then py_print (Line ''Avg latency'' [sum_list latencies / real (length latencies)]) w1
                else w1)
      in case py_div total_size t of
           Inl e \<Rightarrow> (Inl e, w2)
         | Inr q \<Rightarrow> (Inr (), py_print (Line ''Throughput'' [q / 1000000]) w2))"

text \<open>A row of the summary table: time, throughput, ratio to the first strategy.\<close>

definition summary_row ::
  "string \<Rightarrow> real \<Rightarrow> real \<Rightarrow> real \<Rightarrow> world \<Rightarrow> (failure + unit) \<times> world" where
  "summary_row label total_size python_time t w =
     (case py_div total_size t of
        Inl e \<Rightarrow> (Inl e, w)
      | Inr q \<Rightarrow>
          (case py_div python_time t of
             Inl e \<Rightarrow> (Inl e, w)
           | Inr ratio \<Rightarrow> (Inr (), py_print (Line label [t, q / 1000000, ratio]) w)))"

definition analysis :: "real \<Rightarrow> real \<Rightarrow> real \<Rightarrow> real \<Rightarrow> world \<Rightarrow> world" where
  "analysis python_time rust_time hybrid_time c_time w =
     (let fastest_time = min python_time (min rust_time (min hybrid_time c_time)) in
      if hybrid_time = fastest_time
        then py_print (Line ''Hybrid approach (Py I/O + Rust Rayon) is best'' [fastest_time]) w
      else if python_time = fastest_time
        then py_print (Line ''Python threading + Rust is best'' [fastest_time]) w
      else if c_time = fastest_time
        then py_print (Line ''Python threading + C is best'' [fastest_time]) w
      else py_print (Line ''Rust Rayon batch is best'' [fastest_time]) w)"

text \<open>
  The part of \<^verbatim>\<open>main\<close> after the check that both libraries are there: the four
  benchmarks in order, each followed by its prints, then the summary and the analysis.
  The pools of the first, third and fourth strategy each get a schedule.
\<close>

definition run_comparison ::
  "env \<Rightarrow> nat list \<Rightarrow> nat list \<Rightarrow> nat list \<Rightarrow> (path \<times> nat) list \<Rightarrow> real \<Rightarrow> world \<Rightarrow> (failure + unit) \<times> world" where
  "run_comparison E sched1 sched3 sched4 files total_size w =
     then_do (benchmark_python_threading_rust E sched1 files (int (cpu_count E))
                (py_print (Line ''1. Python Threading + Rust (individual calls, reads in parallel)'' []) w))
       (\<lambda>(python_time, python_latencies) w.
     then_do (report_strategy ''Total time'' total_size python_time python_latencies w)
       (\<lambda>_ w.
     then_do (benchmark_rust_parallel_batch E files
                (py_print (Line ''2. Rust Rayon Parallelism (batch processing, reads sequentially)'' []) w))
       (\<lambda>(rust_time, rust_latencies) w.
     then_do (report_strategy ''Total time'' total_size rust_time rust_latencies w)
       (\<lambda>_ w.
     then_do (benchmark_rust_parallel_batch_with_reading E sched3 files (int (cpu_count E))
                (py_print (Line ''3. Hybrid: Python threads (I/O) + Rust Rayon (processing)'' []) w))
       (\<lambda>(hybrid_time, hybrid_latencies) w.
     then_do (report_strategy ''Processing time'' total_size hybrid_time hybrid_latencies w)
       (\<lambda>_ w.
     then_do (benchmark_c_threading E sched4 files (int (cpu_count E))
                (py_print (Line ''4. Python Threading + C (individual calls)'' []) w))
       (\<lambda>(c_time, c_latencies) w.
     then_do (report_strategy ''Total time'' total_size c_time c_latencies w)
       (\<lambda>_ w.
     then_do (case py_div total_size python_time of
                Inl e \<Rightarrow> (Inl e, w)
              | Inr q \<Rightarrow>
                  (Inr (), py_print (Line ''Python Threads + Rust (individual)'' [python_time, q / 1000000]) w))
       (\<lambda>_ w.
     then_do (summary_row ''Rust Rayon (batch, seq I/O)'' total_size python_time rust_time w)
       (\<lambda>_ w.
     then_do (summary_row ''Hybrid: Py Threads + Rust Rayon'' total_size python_time hybrid_time w)
       (\<lambda>_ w.
     then_do (summary_row ''Python Threads + C (individual)'' total_size python_time c_time w)
       (\<lambda>_ w.
     (Inr (), analysis python_time rust_time hybrid_time c_time w)))))))))))))"

text \<open>
  \<^verbatim>\<open>main\<close>, with \<open>argv\<close> for \<^verbatim>\<open>sys.argv\<close>. \<open>Inl (SysExit c)\<close> is \<^verbatim>\<open>sys.exit(c)\<close>, any other
  \<open>Inl\<close> an exception nobody catches, \<open>Inr ()\<close> the normal return.
\<close>

definition main ::
  "env \<Rightarrow> string list \<Rightarrow> nat list \<Rightarrow> nat list \<Rightarrow> nat list \<Rightarrow> world \<Rightarrow> (failure + unit) \<times> world" where
  "main E argv sched1 sched3 sched4 w =
     (if length argv < 2
      then (Inl (SysExit 1), py_print (Line ''Usage: python benchmark_hybrid_parallelism.py <directory>'' []) w)
      else (let directory = argv ! 1 in
        if \<not> dir_exists E directory
        then (Inl (SysExit 1), py_print (Line ''Error: Directory does not exist'' []) w)
        else (let files = get_files E directory 1000;
                  w1 = py_print (Line ''Found files'' [real (length files)]) w;
                  total_size = real (sum_list (map snd files));
                  w2 = py_print (Line ''Total size'' [total_size / 1000000]) w1
              in case py_div total_size (real (length files)) of
                   Inl e \<Rightarrow> (Inl e, w2)
                 | Inr average \<Rightarrow>
                     (let w3 = py_print (Line ''Average file size'' [average / 1024]) w2;
                          w4 = py_print (Line ''CPU cores'' [real (cpu_count E)]) w3;
                          w5 = py_print (Line ''Thread count (Python & Rust)'' [real (cpu_count E)]) w4
                      in if \<not> HAS_RUST E \<or> \<not> HAS_XXHASH E
                         then (Inl (SysExit 1), py_print (Line ''Error: Both libraries required'' []) w5)
                         else run_comparison E sched1 sched3 sched4 files total_size w5))))"

text \<open>The exit status of the process: 0 after a normal return, 1 after an uncaught exception.\<close>

fun exit_code :: "failure + unit \<Rightarrow> int" where
  "exit_code (Inr u) = 0"
| "exit_code (Inl (SysExit c)) = c"
| "exit_code (Inl e) = 1"

section \<open>Vocabulary of the properties\<close>

text \<open>The events one run added to the trace.\<close>

definition run_trace :: "world \<Rightarrow> world \<Rightarrow> event list" where
  "run_trace w w' = drop (length (trace w)) (trace w')"

fun is_read :: "event \<Rightarrow> bool" where
  "is_read (EvRead p) = True"
| "is_read e = False"

fun is_hash :: "event \<Rightarrow> bool" where
  "is_hash (EvRead p) = False"
| "is_hash e = True"

text \<open>No file is read after a hashing call: from the first hashing call on, no read.\<close>

definition reads_before_hashing :: "event list \<Rightarrow> bool" where
  "reads_before_hashing es = list_all (\<lambda>e. \<not> is_read e) (dropWhile (\<lambda>e. \<not> is_hash e) es)"

text \<open>The events a per-item worker may cause: reads, and its primitive on a payload that is not empty.\<close>

fun per_item_event :: "primitive \<Rightarrow> event \<Rightarrow> bool" where
  "per_item_event prim (EvRead p) = True"
| "per_item_event prim (EvHash prim' data) = (prim' = prim \<and> data \<noteq> [])"
| "per_item_event prim (EvBatch ds) = False"

text \<open>The payload of every corpus item, in corpus order.\<close>

definition payloads :: "env \<Rightarrow> (path \<times> nat) list \<Rightarrow> bytes list" where
  "payloads E files = map (read_file E) (map fst files)"

text \<open>
  One latency per corpus item, in corpus order, and zero where the item's payload is
  empty.
\<close>

definition latencies_aligned :: "env \<Rightarrow> (path \<times> nat) list \<Rightarrow> real list \<Rightarrow> bool" where
  "latencies_aligned E files latencies =
     list_all2 (\<lambda>f l. read_file E (fst f) = [] \<longrightarrow> l = 0) files latencies"

text \<open>The numbers printed under a label.\<close>

definition printed :: "string \<Rightarrow> world \<Rightarrow> real list" where
  "printed label w =
     concat (map (\<lambda>l. case l of Line l' xs \<Rightarrow> if l' = label then xs else []) (out w))"

text \<open>
  What a program on a worker thread is allowed to do, whatever the clock answers: every
  event it causes satisfies \<open>Pev\<close>, it reads the clock only if \<open>may_tick\<close>, and what it
  returns satisfies \<open>Pres\<close>.
\<close>

primrec prog_sat :: "env \<Rightarrow> (event \<Rightarrow> bool) \<Rightarrow> bool \<Rightarrow> ('r \<Rightarrow> bool) \<Rightarrow> 'r prog \<Rightarrow> bool" where
  "prog_sat E Pev may_tick Pres (Return r) = Pres r"
| "prog_sat E Pev may_tick Pres (Read_file p k) =
     (Pev (EvRead p) \<and> prog_sat E Pev may_tick Pres (k (read_file E p)))"
| "prog_sat E Pev may_tick Pres (Perf_counter k) =
     (may_tick \<and> (\<forall>t. prog_sat E Pev may_tick Pres (k t)))"
| "prog_sat E Pev may_tick Pres (Hash prim data k) =
     (Pev (EvHash prim data) \<and> prog_sat E Pev may_tick Pres k)"

fun future_sat :: "env \<Rightarrow> (event \<Rightarrow> bool) \<Rightarrow> bool \<Rightarrow> ('r \<Rightarrow> bool) \<Rightarrow> 'r future \<Rightarrow> bool" where
  "future_sat E Pev may_tick Pres (Finished r) = Pres r"
| "future_sat E Pev may_tick Pres (Pending p) = prog_sat E Pev may_tick Pres p"
| "future_sat E Pev may_tick Pres (Running p) = prog_sat E Pev may_tick Pres p"

text \<open>
  The world \<open>w'\<close> comes from \<open>w\<close> by such programs: the trace grew by events satisfying
  \<open>Pev\<close>, nothing was printed, the clock was read only if \<open>may_tick\<close>.
\<close>

definition extends :: "(event \<Rightarrow> bool) \<Rightarrow> bool \<Rightarrow> world \<Rightarrow> world \<Rightarrow> bool" where
  "extends Pev may_tick w w' \<longleftrightarrow>
     trace w' = trace w @ run_trace w w' \<and> list_all Pev (run_trace w w') \<and>
     out w' = out w \<and> ticks w \<le> ticks w' \<and> (may_tick \<or> ticks w' = ticks w)"

text \<open>The digests the batch primitive returns in a run over \<open>files\<close>.\<close>

definition batch_results :: "env \<Rightarrow> (bytes list \<Rightarrow> digest list) \<Rightarrow> (path \<times> nat) list \<Rightarrow> digest list" where
  "batch_results E batch files = batch (filter (\<lambda>d. d \<noteq> []) (payloads E files))"

section \<open>Concrete inputs\<close>

text \<open>
  A directory \<^verbatim>\<open>d\<close> with the files \<^verbatim>\<open>a\<close> (one byte), \<^verbatim>\<open>b\<close> (two bytes) and \<^verbatim>\<open>c\<close> (empty),
  both libraries present, two cores, and a clock whose \<open>k\<close>-th reading is \<open>k\<^sup>2\<close> seconds.
\<close>

definition small_corpus :: env where
  "small_corpus =
     \<lparr>HAS_RUST = True, HAS_XXHASH = True, batch_xxh64 = Some (map (\<lambda>d. 0)),
      dir_exists = (\<lambda>p. p = ''d''),
      os_walk = (\<lambda>p. if p = ''d'' then [(''d'', [], [''a'', ''b'', ''c''])] else []),
      stat_size = (\<lambda>p. if p = ''d/a'' then Some 1 else if p = ''d/b'' then Some 2
                        else if p = ''d/c'' then Some 0 else None),
      file_contents = (\<lambda>p. if p = ''d/a'' then Some [1] else if p = ''d/b'' then Some [2, 3]
                        else if p = ''d/c'' then Some [] else None),
      cpu_count = 2,
      clock = (\<lambda>k. real (k * k))\<rparr>"

text \<open>Its corpus, as \<^verbatim>\<open>get_files\<close> returns it.\<close>

definition small_files :: "(path \<times> nat) list" where
  "small_files = [(''d/c'', 0), (''d/a'', 1), (''d/b'', 2)]"

text \<open>The same machine with the first library missing, and with an empty directory.\<close>

definition no_rust :: env where
  "no_rust = small_corpus\<lparr>HAS_RUST := False\<rparr>"

definition empty_dir :: env where
  "empty_dir = small_corpus\<lparr>os_walk := (\<lambda>p. if p = ''d'' then [(''d'', [], [])] else [])\<rparr>"

definition world0 :: world where
  "world0 = \<lparr>ticks = 0, trace = [], out = []\<rparr>"

text \<open>
  Runs on that machine: the batch strategy; the hybrid strategy on three threads, with
  a schedule under which the second call of \<^verbatim>\<open>read_worker\<close> returns before the first;
  the first per-item strategy on one thread; and \<^verbatim>\<open>main\<close> without the first library
  and on the empty directory.
\<close>

definition batch_run :: "(failure + real \<times> real list) \<times> world" where
  "batch_run = benchmark_rust_parallel_batch small_corpus small_files world0"

definition hybrid_run :: "(failure + real \<times> real list) \<times> world" where
  "hybrid_run =
     benchmark_rust_parallel_batch_with_reading small_corpus [0, 1, 1, 1, 0, 0] small_files 3 world0"

definition per_item_run :: "(failure + real \<times> real list) \<times> world" where
  "per_item_run =
     benchmark_python_threading_rust small_corpus [0, 0, 0, 0, 0, 0, 0, 0, 0, 0, 0, 0]
       small_files 1 world0"

definition no_rust_main :: "(failure + unit) \<times> world" where
  "no_rust_main = main no_rust [''prog'', ''d''] [] [] [] world0"

definition empty_dir_main :: "(failure + unit) \<times> world" where
  "empty_dir_main = main empty_dir [''prog'', ''d''] [] [] [] world0"

section \<open>Properties of the sampler\<close>

lemma sorted_py_slice_to:
  "sorted (map f xs) \<Longrightarrow> sorted (map f (py_slice_to xs m))"
  by (simp add: py_slice_to_def take_map [symmetric] del: take_map)

lemma mset_take_subseteq: "mset (take n xs) \<subseteq># mset xs"
proof -
  have "mset xs = mset (take n xs) + mset (drop n xs)"
    by (metis append_take_drop_id mset_append)
  then show ?thesis by simp
qed

lemma stat_files_cong:
  "\<forall>p \<in> set (map (joinpath dirpath) filenames). stat_size E1 p = stat_size E2 p \<Longrightarrow>
   stat_files E1 dirpath filenames = stat_files E2 dirpath filenames"
  by (induction filenames) (auto simp: Let_def split: option.splits)

lemma walk_files_cong:
  "\<forall>p \<in> set (walked_paths triples). stat_size E1 p = stat_size E2 p \<Longrightarrow>
   walk_files E1 triples = walk_files E2 triples"
proof (induction triples)
  case Nil
  show ?case by simp
next
  case (Cons t rest)
  obtain dirpath dirs filenames where t: "t = (dirpath, dirs, filenames)"
    by (cases t) auto
  from Cons.prems have here: "\<forall>p \<in> set (map (joinpath dirpath) filenames). stat_size E1 p = stat_size E2 p"
    and there: "\<forall>p \<in> set (walked_paths rest). stat_size E1 p = stat_size E2 p"
    by (auto simp: walked_paths_def t)
  from stat_files_cong [OF here] Cons.IH [OF there] show ?case
    by (simp add: t)
qed

text \<open>
  C5. For every directory and every bound \<open>max_files\<close>, the sampled corpus is sorted
  ascending by file size; for a bound that is a count (not negative) it has at most
  \<open>max_files\<close> entries, namely as many as the bound and the directory allow, all of them
  files the walk found. The directory with files of 10, 1000 and 100 bytes, sampled with
  \<open>max_files = 10\<close>, gives the 10-, the 100- and then the 1000-byte file.
\<close>

theorem get_files_sorted_truncated:
  "sorted (map snd (get_files E directory max_files)) \<and>
   mset (get_files E directory max_files) \<subseteq># mset (walk_files E (os_walk E directory)) \<and>
   (0 \<le> max_files \<longrightarrow>
      int (length (get_files E directory max_files)) \<le> max_files \<and>
      length (get_files E directory max_files) =
        min (nat max_files) (length (walk_files E (os_walk E directory)))) \<and>
   get_files three_files ''d'' 10 = [(''d/a'', 10), (''d/c'', 100), (''d/b'', 1000)]"
proof -
  let ?all = "walk_files E (os_walk E directory)"
  have srt: "sorted (map snd (get_files E directory max_files))"
    unfolding get_files_def by (rule sorted_py_slice_to) simp
  have "\<And>n. mset (take n (sort_key snd ?all)) \<subseteq># mset ?all"
    using mset_take_subseteq [of _ "sort_key snd ?all"] by simp
  then have sub: "mset (get_files E directory max_files) \<subseteq># mset ?all"
    by (simp add: get_files_def py_slice_to_def)
  have len: "0 \<le> max_files \<Longrightarrow>
      length (get_files E directory max_files) = min (nat max_files) (length ?all)"
    by (simp add: get_files_def py_slice_to_def min.commute)
  have bound: "0 \<le> max_files \<Longrightarrow> int (length (get_files E directory max_files)) \<le> max_files"
    using len by simp
  have ex: "get_files three_files ''d'' 10 = [(''d/a'', 10), (''d/c'', 100), (''d/b'', 1000)]"
    by (simp add: get_files_def py_slice_to_def three_files_def joinpath_def)
  from srt sub len bound ex show ?thesis by blast
qed

theorem get_files_sorted_truncated_witness:
  "(0::int) \<le> 2 \<and> get_files three_files ''d'' 2 = [(''d/a'', 10), (''d/c'', 100)] \<and>
   int (length (get_files three_files ''d'' 2)) \<le> 2 \<and>
   sorted (map snd (get_files three_files ''d'' 2))"
  using get_files_sorted_truncated [of three_files "''d''" 2]
  by (simp add: get_files_def py_slice_to_def three_files_def joinpath_def)

text \<open>
  C9. Sampling is deterministic: two invocations that see the same enumeration of the
  directory and the same sizes for the enumerated files return the same ordered
  sequence, whatever else differs between them.
\<close>

theorem get_files_deterministic:
  assumes "os_walk E1 directory = os_walk E2 directory"
    and "\<forall>p \<in> set (walked_paths (os_walk E1 directory)). stat_size E1 p = stat_size E2 p"
  shows "get_files E1 directory max_files = get_files E2 directory max_files"
proof -
  from assms(2) have "walk_files E1 (os_walk E1 directory) = walk_files E2 (os_walk E1 directory)"
    by (rule walk_files_cong)
  with assms(1) show ?thesis
    by (simp add: get_files_def)
qed

theorem get_files_deterministic_witness:
  "get_files three_files ''d'' 10 =
     get_files (three_files\<lparr>cpu_count := 8, clock := (\<lambda>k. 0)\<rparr>) ''d'' 10"
proof -
  let ?E2 = "three_files\<lparr>cpu_count := 8, clock := (\<lambda>k. 0)\<rparr>"
  have a: "os_walk three_files ''d'' = os_walk ?E2 ''d''" by simp
  have b: "\<forall>p \<in> set (walked_paths (os_walk three_files ''d'')). stat_size three_files p = stat_size ?E2 p"
    by simp
  from get_files_deterministic [OF a b, of 10] show ?thesis .
qed

section \<open>The pool keeps what its programs keep\<close>

lemma extends_refl: "extends Pev may_tick w w"
  by (simp add: extends_def run_trace_def)

lemma extends_trans:
  assumes "extends Pev may_tick w1 w2" and "extends Pev may_tick w2 w3"
  shows "extends Pev may_tick w1 w3"
proof -
  from assms have t2: "trace w2 = trace w1 @ run_trace w1 w2"
    and t3: "trace w3 = trace w2 @ run_trace w2 w3"
    by (simp_all add: extends_def)
  from t2 t3 have "trace w3 = trace w1 @ (run_trace w1 w2 @ run_trace w2 w3)"
    by simp
  then have r13: "run_trace w1 w3 = run_trace w1 w2 @ run_trace w2 w3"
    unfolding run_trace_def [of w1 w3] by (metis append_eq_conv_conj)
  with assms t2 t3 show ?thesis
    by (auto simp: extends_def)
qed

lemma extends_emit: "Pev e \<Longrightarrow> extends Pev may_tick w (emit e w)"
  by (simp add: extends_def run_trace_def emit_def)

lemma extends_perf_counter: "extends Pev True w (snd (perf_counter E w))"
  by (simp add: extends_def run_trace_def perf_counter_def)

lemma step_prog_sat:
  assumes "prog_sat E Pev may_tick Pres p" and "step_prog E p w = (p', w')"
  shows "prog_sat E Pev may_tick Pres p' \<and> extends Pev may_tick w w'"
proof (cases p)
  case (Return r)
  with assms show ?thesis by (auto simp: extends_refl)
next
  case (Read_file path k)
  with assms show ?thesis by (auto simp: call_read_file_def extends_emit)
next
  case (Perf_counter k)
  with assms have may_tick by simp
  with assms Perf_counter extends_perf_counter [of Pev w E] show ?thesis
    by (auto simp: perf_counter_def)
next
  case (Hash prim data k)
  with assms show ?thesis by (auto simp: extends_emit)
qed

lemma run_prog_sat:
  "prog_sat E Pev may_tick Pres p \<Longrightarrow> run_prog E p w = (r, w') \<Longrightarrow> Pres r \<and> extends Pev may_tick w w'"
proof (induction p arbitrary: w)
  case (Return x)
  then show ?case by (auto simp: extends_refl)
next
  case (Read_file path k)
  let ?w1 = "emit (EvRead path) w"
  from Read_file.prems have sat: "prog_sat E Pev may_tick Pres (k (read_file E path))"
    and run: "run_prog E (k (read_file E path)) ?w1 = (r, w')" and ev: "Pev (EvRead path)"
    by (simp_all add: call_read_file_def)
  have "Pres r \<and> extends Pev may_tick ?w1 w'"
    by (rule Read_file.IH [OF _ sat run]) simp
  with extends_trans [OF extends_emit [of Pev "EvRead path" may_tick w]] ev show ?case by blast
next
  case (Perf_counter k)
  let ?t = "clock E (ticks w)"
  let ?w1 = "snd (perf_counter E w)"
  from Perf_counter.prems(1) have mt: may_tick and sat: "prog_sat E Pev may_tick Pres (k ?t)"
    by auto
  from Perf_counter.prems(2) have run: "run_prog E (k ?t) ?w1 = (r, w')"
    by (simp add: perf_counter_def)
  have "Pres r \<and> extends Pev may_tick ?w1 w'"
    by (rule Perf_counter.IH [OF _ sat run]) simp
  moreover from mt have "extends Pev may_tick w ?w1"
    using extends_perf_counter [of Pev w E] by simp
  ultimately show ?case using extends_trans by blast
next
  case (Hash prim data k)
  let ?w1 = "emit (EvHash prim data) w"
  from Hash.prems have sat: "prog_sat E Pev may_tick Pres k"
    and run: "run_prog E k ?w1 = (r, w')" and ev: "Pev (EvHash prim data)"
    by simp_all
  from Hash.IH [OF sat run] extends_trans [OF extends_emit [of Pev "EvHash prim data" may_tick w]] ev
  show ?case by blast
qed

lemma step_future_sat:
  assumes "future_sat E Pev may_tick Pres f" and "step_future E f w = (f', w')"
  shows "future_sat E Pev may_tick Pres f' \<and> extends Pev may_tick w w'"
proof -
  have prog: "\<And>p. prog_sat E Pev may_tick Pres p \<Longrightarrow>
      (case p of Return r \<Rightarrow> (Finished r, w)
       | _ \<Rightarrow> (let (p', w') = step_prog E p w in (Running p', w'))) = (f', w') \<Longrightarrow>
      future_sat E Pev may_tick Pres f' \<and> extends Pev may_tick w w'"
  proof -
    fix p
    assume sat: "prog_sat E Pev may_tick Pres p"
      and st: "(case p of Return r \<Rightarrow> (Finished r, w)
       | _ \<Rightarrow> (let (p', w') = step_prog E p w in (Running p', w'))) = (f', w')"
    show "future_sat E Pev may_tick Pres f' \<and> extends Pev may_tick w w'"
    proof (cases "\<exists>r. p = Return r")
      case True
      with sat st show ?thesis by (auto simp: extends_refl)
    next
      case False
      obtain p1 w1 where s1: "step_prog E p w = (p1, w1)" by (cases "step_prog E p w") auto
      with False st have "f' = Running p1" and "w' = w1"
        by (cases p; simp)+
      with step_prog_sat [OF sat s1] show ?thesis by simp
    qed
  qed
  show ?thesis
  proof (cases f)
    case (Finished r)
    with assms show ?thesis by (auto simp: extends_refl)
  next
    case (Pending p)
    with assms prog [of p] show ?thesis by simp
  next
    case (Running p)
    with assms prog [of p] show ?thesis by simp
  qed
qed

lemma runnable_bound: "i \<in> set (runnable n fs) \<Longrightarrow> i < length fs"
  by (auto simp: runnable_def Let_def dest: in_set_takeD split: if_splits)

lemma run_pool_sat:
  "list_all2 (\<lambda>x f. future_sat E Pev may_tick (Pres x) f) xs fs \<Longrightarrow>
   run_pool E n sched fs w = (fs', w') \<Longrightarrow>
   list_all2 (\<lambda>x f. future_sat E Pev may_tick (Pres x) f) xs fs' \<and> extends Pev may_tick w w'"
proof (induction sched arbitrary: fs w)
  case Nil
  then show ?case by (simp add: extends_refl)
next
  case (Cons c cs)
  show ?case
  proof (cases "runnable n fs")
    case Nil
    with Cons.prems show ?thesis by (simp add: extends_refl)
  next
    case (Cons i rest)
    let ?j = "(i # rest) ! (c mod length (i # rest))"
    have "?j \<in> set (runnable n fs)"
      unfolding Cons by (rule nth_mem) simp
    then have j: "?j < length fs" by (rule runnable_bound)
    obtain f1 w1 where st: "step_future E (fs ! ?j) w = (f1, w1)"
      by (cases "step_future E (fs ! ?j) w") auto
    from Cons.prems(1) have len: "length xs = length fs" by (rule list_all2_lengthD)
    from Cons.prems(1) j have "future_sat E Pev may_tick (Pres (xs ! ?j)) (fs ! ?j)"
      by (simp add: list_all2_conv_all_nth)
    from step_future_sat [OF this st]
    have f1: "future_sat E Pev may_tick (Pres (xs ! ?j)) f1" and e1: "extends Pev may_tick w w1" by simp_all
    from list_all2_update_cong [OF Cons.prems(1) f1, of ?j]
    have inv: "list_all2 (\<lambda>x f. future_sat E Pev may_tick (Pres x) f) xs (fs[?j := f1])"
      by simp
    from Cons.prems(2) Cons st have "run_pool E n cs (fs[?j := f1]) w1 = (fs', w')"
      by (simp add: Let_def)
    from Cons.IH [OF inv this] e1 extends_trans show ?thesis by blast
  qed
qed

lemma join_all_sat:
  "list_all2 (\<lambda>x f. future_sat E Pev may_tick (Pres x) f) xs fs \<Longrightarrow>
   join_all E fs w = (rs, w') \<Longrightarrow>
   list_all2 Pres xs rs \<and> extends Pev may_tick w w'"
proof (induction fs arbitrary: xs w rs w')
  case Nil
  then show ?case by (auto simp: extends_refl)
next
  case (Cons f fs)
  from Cons.prems(1) obtain x xs' where xs: "xs = x # xs'"
    and fx: "future_sat E Pev may_tick (Pres x) f"
    and rest: "list_all2 (\<lambda>x f. future_sat E Pev may_tick (Pres x) f) xs' fs"
    by (auto simp: list_all2_Cons2)
  obtain r1 w1 where head: "(case f of Finished r \<Rightarrow> (r, w) | Pending p \<Rightarrow> run_prog E p w
      | Running p \<Rightarrow> run_prog E p w) = (r1, w1)"
    by (cases f; cases "run_prog E (case f of Pending p \<Rightarrow> p | Running p \<Rightarrow> p) w"; simp)
  obtain rs1 w2 where tail: "join_all E fs w1 = (rs1, w2)"
    by (cases "join_all E fs w1") auto
  from head tail Cons.prems(2) have res: "rs = r1 # rs1" "w' = w2"
    by (cases f; simp)+
  from fx head have h: "Pres x r1 \<and> extends Pev may_tick w w1"
    by (cases f) (auto simp: extends_refl dest: run_prog_sat)
  from Cons.IH [OF rest tail] h res xs extends_trans show ?case
    by auto
qed

lemma executor_map_sat:
  assumes "0 < n" and "\<forall>x \<in> set xs. prog_sat E Pev may_tick (Pres x) (fn x)"
    and "executor_map E n sched fn xs w = (res, w')"
  shows "\<exists>rs. res = Inr rs \<and> list_all2 Pres xs rs \<and> extends Pev may_tick w w'"
proof -
  let ?fs = "map (\<lambda>x. Pending (fn x)) xs"
  obtain fs1 w1 where pool: "run_pool E (nat n) sched ?fs w = (fs1, w1)"
    by (cases "run_pool E (nat n) sched ?fs w") auto
  obtain rs w2 where join: "join_all E fs1 w1 = (rs, w2)"
    by (cases "join_all E fs1 w1") auto
  from assms(1,3) pool join have res: "res = Inr rs" "w' = w2"
    by (simp_all add: executor_map_def)
  from assms(2) have "list_all2 (\<lambda>x f. future_sat E Pev may_tick (Pres x) f) xs ?fs"
    by (simp add: list_all2_map2 list_all2_same)
  from run_pool_sat [OF this pool]
  have inv: "list_all2 (\<lambda>x f. future_sat E Pev may_tick (Pres x) f) xs fs1" and e1: "extends Pev may_tick w w1"
    by simp_all
  from join_all_sat [OF inv join] e1 res extends_trans show ?thesis by blast
qed

lemma read_worker_sat:
  "prog_sat E is_read False (\<lambda>r. r = read_file E x) (read_worker x)"
  by (simp add: read_worker_def)

lemma worker_sat:
  "prog_sat E (per_item_event prim) True (\<lambda>r. read_file E x = [] \<longrightarrow> r = 0) (worker prim x)"
  by (simp add: worker_def)

lemma list_all2_eq_map: "list_all2 (\<lambda>x r. r = f x) xs rs \<Longrightarrow> rs = map f xs"
  by (induction xs rs rule: list_all2_induct) simp_all

lemma executor_map_read_worker:
  assumes "0 < n" and "executor_map E n sched read_worker xs w = (res, w')"
  shows "res = Inr (map (read_file E) xs) \<and> extends is_read False w w'"
proof -
  have "\<forall>x \<in> set xs. prog_sat E is_read False (\<lambda>r. r = read_file E x) (read_worker x)"
    by (simp add: read_worker_sat)
  from executor_map_sat [OF assms(1) this assms(2)] list_all2_eq_map [of "read_file E" xs]
  show ?thesis by blast
qed

lemma executor_map_worker:
  assumes "0 < n" and "executor_map E n sched (worker prim) (map fst files) w = (res, w')"
  shows "\<exists>rs. res = Inr rs \<and> latencies_aligned E files rs \<and> extends (per_item_event prim) True w w'"
proof -
  have "\<forall>x \<in> set (map fst files).
      prog_sat E (per_item_event prim) True (\<lambda>r. read_file E x = [] \<longrightarrow> r = 0) (worker prim x)"
    by (simp add: worker_sat)
  from executor_map_sat [OF assms(1) this assms(2)]
  show ?thesis by (simp add: latencies_aligned_def list_all2_map1)
qed

lemma read_loop_spec:
  "read_loop E files w = (data_list, w') \<Longrightarrow>
   data_list = filter (\<lambda>d. d \<noteq> []) (payloads E files) \<and>
   trace w' = trace w @ map EvRead (map fst files) \<and> out w' = out w \<and> ticks w' = ticks w"
proof (induction files arbitrary: w data_list w')
  case Nil
  then show ?case by (simp add: payloads_def)
next
  case (Cons f files)
  obtain filepath sz where f: "f = (filepath, sz)" by (cases f) auto
  let ?w1 = "emit (EvRead filepath) w"
  obtain dl w2 where rest: "read_loop E files ?w1 = (dl, w2)"
    by (cases "read_loop E files ?w1") auto
  from Cons.IH [OF rest] have ih: "dl = filter (\<lambda>d. d \<noteq> []) (payloads E files)"
    "trace w2 = trace ?w1 @ map EvRead (map fst files)" "out w2 = out ?w1" "ticks w2 = ticks ?w1"
    by simp_all
  from Cons.prems rest f have "w' = w2"
    and "data_list = (if read_file E filepath \<noteq> [] then read_file E filepath # dl else dl)"
    by (simp_all add: call_read_file_def)
  with ih f show ?case
    by (simp add: payloads_def emit_def)
qed

lemma process_batch_spec:
  "process_batch E batch read_time data_list w =
     (Inr (clock E (Suc (ticks w)) - clock E (ticks w),
           replicate (length (batch data_list))
             ((clock E (Suc (ticks w)) - clock E (ticks w)) * 1000000
                / real (length (batch data_list)))),
      w\<lparr>ticks := Suc (Suc (ticks w)),
        trace := trace w @ [EvBatch data_list],
        out := out w @ [Line ''I/O time'' [read_time],
                        Line ''Processing time'' [clock E (Suc (ticks w)) - clock E (ticks w)]]\<rparr>)"
  by (cases "batch data_list = []")
     (simp_all add: process_batch_def perf_counter_def py_div_def emit_def py_print_def Let_def)

lemma rust_parallel_batch_spec:
  assumes "HAS_RUST E" and "batch_xxh64 E = Some batch"
  shows "benchmark_rust_parallel_batch E files w =
     (Inr (clock E (ticks w + 3) - clock E (ticks w + 2),
           replicate (length (batch (filter (\<lambda>d. d \<noteq> []) (payloads E files))))
             ((clock E (ticks w + 3) - clock E (ticks w + 2)) * 1000000
                / real (length (batch (filter (\<lambda>d. d \<noteq> []) (payloads E files)))))),
      w\<lparr>ticks := ticks w + 4,
        trace := trace w @ map EvRead (map fst files)
                   @ [EvBatch (filter (\<lambda>d. d \<noteq> []) (payloads E files))],
        out := out w @ [Line ''I/O time'' [clock E (ticks w + 1) - clock E (ticks w)],
                        Line ''Processing time'' [clock E (ticks w + 3) - clock E (ticks w + 2)]]\<rparr>)"
proof -
  let ?w1 = "w\<lparr>ticks := Suc (ticks w)\<rparr>"
  obtain dl w2 where loop: "read_loop E files ?w1 = (dl, w2)"
    by (cases "read_loop E files ?w1") auto
  from read_loop_spec [OF loop]
  have dl: "dl = filter (\<lambda>d. d \<noteq> []) (payloads E files)"
    and w2: "trace w2 = trace w @ map EvRead (map fst files)" "out w2 = out w"
      "ticks w2 = Suc (ticks w)"
    by simp_all
  have "w2 = w\<lparr>ticks := Suc (ticks w), trace := trace w @ map EvRead (map fst files)\<rparr>"
    using w2 by simp
  with assms loop dl show ?thesis
    by (simp add: benchmark_rust_parallel_batch_def process_batch_spec perf_counter_def
        numeral_3_eq_3 eval_nat_numeral)
qed

lemma read_files_parallel_spec:
  assumes "0 < n" and "read_files_parallel E sched files n w = (res, w')"
  shows "res = Inr (filter (\<lambda>d. d \<noteq> []) (payloads E files)) \<and> extends is_read False w w'"
proof -
  obtain res1 w1 where m: "executor_map E n sched read_worker (map fst files) w = (res1, w1)"
    by (cases "executor_map E n sched read_worker (map fst files) w") auto
  from executor_map_read_worker [OF assms(1) m] m assms(2) show ?thesis
    by (simp add: read_files_parallel_def payloads_def)
qed

lemma hybrid_spec:
  assumes "0 < n" and "HAS_RUST E" and "batch_xxh64 E = Some batch"
  shows "\<exists>reads. list_all is_read reads \<and>
    benchmark_rust_parallel_batch_with_reading E sched files n w =
     (Inr (clock E (ticks w + 3) - clock E (ticks w + 2),
           replicate (length (batch (filter (\<lambda>d. d \<noteq> []) (payloads E files))))
             ((clock E (ticks w + 3) - clock E (ticks w + 2)) * 1000000
                / real (length (batch (filter (\<lambda>d. d \<noteq> []) (payloads E files)))))),
      w\<lparr>ticks := ticks w + 4,
        trace := trace w @ reads @ [EvBatch (filter (\<lambda>d. d \<noteq> []) (payloads E files))],
        out := out w @ [Line ''I/O time'' [clock E (ticks w + 1) - clock E (ticks w)],
                        Line ''Processing time'' [clock E (ticks w + 3) - clock E (ticks w + 2)]]\<rparr>)"
proof -
  let ?w1 = "w\<lparr>ticks := Suc (ticks w)\<rparr>"
  obtain res w2 where rd: "read_files_parallel E sched files n ?w1 = (res, w2)"
    by (cases "read_files_parallel E sched files n ?w1") auto
  from read_files_parallel_spec [OF assms(1) rd]
  have res: "res = Inr (filter (\<lambda>d. d \<noteq> []) (payloads E files))"
    and ext: "extends is_read False ?w1 w2"
    by simp_all
  define reads where "reads = run_trace ?w1 w2"
  from ext have w2: "trace w2 = trace w @ reads" "out w2 = out w" "ticks w2 = Suc (ticks w)"
    and reads: "list_all is_read reads"
    by (simp_all add: extends_def reads_def)
  have "w2 = w\<lparr>ticks := Suc (ticks w), trace := trace w @ reads\<rparr>"
    using w2 by simp
  with assms(2,3) rd res
  have "benchmark_rust_parallel_batch_with_reading E sched files n w =
     (Inr (clock E (ticks w + 3) - clock E (ticks w + 2),
           replicate (length (batch (filter (\<lambda>d. d \<noteq> []) (payloads E files))))
             ((clock E (ticks w + 3) - clock E (ticks w + 2)) * 1000000
                / real (length (batch (filter (\<lambda>d. d \<noteq> []) (payloads E files)))))),
      w\<lparr>ticks := ticks w + 4,
        trace := trace w @ reads @ [EvBatch (filter (\<lambda>d. d \<noteq> []) (payloads E files))],
        out := out w @ [Line ''I/O time'' [clock E (ticks w + 1) - clock E (ticks w)],
                        Line ''Processing time'' [clock E (ticks w + 3) - clock E (ticks w + 2)]]\<rparr>)"
    by (simp add: benchmark_rust_parallel_batch_with_reading_def process_batch_spec
        perf_counter_def numeral_3_eq_3 eval_nat_numeral)
  with reads show ?thesis by blast
qed

lemma is_read_not_hash: "is_read e \<Longrightarrow> \<not> is_hash e"
  by (cases e) simp_all

lemma reads_then_batch:
  "list_all is_read reads \<Longrightarrow> reads_before_hashing (reads @ [EvBatch ds])"
  by (induction reads) (simp_all add: reads_before_hashing_def is_read_not_hash)

lemma per_item_spec:
  assumes "0 < n"
    and "executor_map E n sched (worker prim) (map fst files) (snd (perf_counter E w)) = (res, w2)"
  shows "\<exists>latencies. res = Inr latencies \<and> latencies_aligned E files latencies \<and>
     EvHash prim [] \<notin> set (run_trace w w2) \<and> out w2 = out w"
proof -
  let ?w1 = "snd (perf_counter E w)"
  from executor_map_worker [OF assms]
  obtain rs where rs: "res = Inr rs" "latencies_aligned E files rs"
    and ext: "extends (per_item_event prim) True ?w1 w2"
    by blast
  have "extends (per_item_event prim) True w ?w1"
    by (rule extends_perf_counter)
  from extends_trans [OF this ext]
  have "list_all (per_item_event prim) (run_trace w w2)" and "out w2 = out w"
    by (simp_all add: extends_def)
  then have "EvHash prim [] \<notin> set (run_trace w w2)" and "out w2 = out w"
    by (auto simp: list_all_iff)
  with rs show ?thesis by blast
qed

section \<open>The strategies: what is returned, and in which order things happen\<close>

lemma per_item_strategy:
  assumes "0 < n"
  shows "\<exists>t latencies w'.
     (let (start, w1) = perf_counter E w in
      case executor_map E n sched (worker prim) (map fst files) w1 of
        (Inl e, w2) \<Rightarrow> (Inl e, w2)
      | (Inr latencies, w2) \<Rightarrow>
          (let (stop, w3) = perf_counter E w2; total_time = stop - start
           in (Inr (total_time, latencies), w3))) = (Inr (t, latencies), w') \<and>
     latencies_aligned E files latencies \<and> EvHash prim [] \<notin> set (run_trace w w')"
proof -
  let ?w1 = "snd (perf_counter E w)"
  obtain res w2 where m: "executor_map E n sched (worker prim) (map fst files) ?w1 = (res, w2)"
    by (cases "executor_map E n sched (worker prim) (map fst files) ?w1") auto
  from per_item_spec [OF assms m] obtain latencies where res: "res = Inr latencies"
    and al: "latencies_aligned E files latencies"
    and tr: "EvHash prim [] \<notin> set (run_trace w w2)"
    by blast
  have "run_trace w (snd (perf_counter E w2)) = run_trace w w2"
    by (simp add: run_trace_def perf_counter_def)
  with m res al tr show ?thesis
    by (simp add: perf_counter_def Let_def)
qed

text \<open>
  C1, as stated, at a concrete input. The claim: the time a batch-dispatch strategy
  returns is its I/O time plus its compute time. On the small corpus both batch
  strategies print an I/O time of 1 and a processing time of 5, and return 5, not 6.
\<close>

theorem batch_return_is_not_total_counterexample:
  "fst batch_run = Inr (5, [2500000, 2500000]) \<and>
   printed ''I/O time'' (snd batch_run) = [1] \<and>
   printed ''Processing time'' (snd batch_run) = [5] \<and>
   fst batch_run \<noteq> Inr (1 + 5, [2500000, 2500000]) \<and>
   fst hybrid_run = Inr (5, [2500000, 2500000]) \<and>
   printed ''I/O time'' (snd hybrid_run) = [1] \<and>
   printed ''Processing time'' (snd hybrid_run) = [5] \<and>
   fst hybrid_run \<noteq> Inr (1 + 5, [2500000, 2500000])"
  unfolding batch_run_def hybrid_run_def by code_simp

text \<open>
  C1, amended. The hybrid strategy returns the compute time alone: the span between the
  two clock readings around the one call of \<^verbatim>\<open>batch_xxh64\<close> (the source:
  \<^verbatim>\<open>return process_time, latencies  # Return just processing for fair comparison\<close>). The
  I/O time, the span between the first two readings, is printed on its own line and is
  no part of what is returned.
\<close>

theorem hybrid_returns_compute_time:
  assumes "0 < num_threads" and "HAS_RUST E" and "batch_xxh64 E = Some batch"
  shows "\<exists>latencies w'.
     benchmark_rust_parallel_batch_with_reading E sched files num_threads w
       = (Inr (clock E (ticks w + 3) - clock E (ticks w + 2), latencies), w') \<and>
     printed ''I/O time'' w' = printed ''I/O time'' w @ [clock E (ticks w + 1) - clock E (ticks w)] \<and>
     printed ''Processing time'' w' =
       printed ''Processing time'' w @ [clock E (ticks w + 3) - clock E (ticks w + 2)]"
  using hybrid_spec [OF assms, of sched files w] by (auto simp: printed_def)

text \<open>
  The amended C1 on the small corpus: returned 5, printed I/O time 1 and processing time 5.
\<close>

theorem hybrid_returns_compute_time_witness:
  "\<exists>latencies w'.
     benchmark_rust_parallel_batch_with_reading small_corpus [0, 1, 1, 1, 0, 0] small_files 3 world0
       = (Inr (5, latencies), w') \<and>
     printed ''I/O time'' w' = [1] \<and> printed ''Processing time'' w' = [5]"
proof -
  have a: "(0::int) < 3" by simp
  have b: "HAS_RUST small_corpus" by (simp add: small_corpus_def)
  have c: "batch_xxh64 small_corpus = Some (map (\<lambda>d. 0))" by (simp add: small_corpus_def)
  from hybrid_returns_compute_time [OF a b c, of "[0, 1, 1, 1, 0, 0]" small_files world0]
  show ?thesis by (simp add: small_corpus_def world0_def printed_def)
qed

text \<open>
  C2, as stated, at a concrete input. The claim: with one primitive missing the other
  strategies still run and report. With the first library missing and the second
  present, \<^verbatim>\<open>main\<close> exits with status 1; no file was read, nothing was hashed, and no
  time or throughput was printed for any strategy.
\<close>

theorem missing_primitive_aborts_counterexample:
  "\<not> HAS_RUST no_rust \<and> HAS_XXHASH no_rust \<and>
   fst no_rust_main = Inl (SysExit 1) \<and> exit_code (fst no_rust_main) = 1 \<and>
   trace (snd no_rust_main) = [] \<and> printed ''Total time'' (snd no_rust_main) = [] \<and>
   printed ''Throughput'' (snd no_rust_main) = []"
  by (simp add: no_rust_main_def no_rust_def main_def small_corpus_def world0_def get_files_def
      py_slice_to_def py_div_def py_print_def joinpath_def printed_def)

text \<open>
  C2, amended. Each strategy function, called without the primitive it needs, returns
  \<^verbatim>\<open>(0, [])\<close> and does nothing else. \<^verbatim>\<open>main\<close> however requires both libraries: called on
  a directory with at least one file when either is missing, it prints
  \<^verbatim>\<open>Error: Both libraries required\<close> and exits with status 1 before any strategy runs.
\<close>

theorem unavailable_strategy_zero_and_main_exits:
  "(\<not> HAS_RUST E \<longrightarrow>
      benchmark_python_threading_rust E sched files num_threads w = (Inr (0, []), w)) \<and>
   (\<not> HAS_RUST E \<or> batch_xxh64 E = None \<longrightarrow>
      benchmark_rust_parallel_batch E files w = (Inr (0, []), w) \<and>
      benchmark_rust_parallel_batch_with_reading E sched files num_threads w = (Inr (0, []), w)) \<and>
   (\<not> HAS_XXHASH E \<longrightarrow>
      benchmark_c_threading E sched files num_threads w = (Inr (0, []), w)) \<and>
   ((\<not> HAS_RUST E \<or> \<not> HAS_XXHASH E) \<and> 2 \<le> length argv \<and> dir_exists E (argv ! 1) \<and>
    get_files E (argv ! 1) 1000 \<noteq> [] \<longrightarrow>
      fst (main E argv sched1 sched3 sched4 w) = Inl (SysExit 1) \<and>
      exit_code (fst (main E argv sched1 sched3 sched4 w)) = 1 \<and>
      trace (snd (main E argv sched1 sched3 sched4 w)) = trace w \<and>
      ticks (snd (main E argv sched1 sched3 sched4 w)) = ticks w \<and>
      last (out (snd (main E argv sched1 sched3 sched4 w)))
        = Line ''Error: Both libraries required'' [])"
proof -
  have a: "\<not> HAS_RUST E \<Longrightarrow>
      benchmark_python_threading_rust E sched files num_threads w = (Inr (0, []), w)"
    by (simp add: benchmark_python_threading_rust_def)
  have b: "\<not> HAS_RUST E \<or> batch_xxh64 E = None \<Longrightarrow>
      benchmark_rust_parallel_batch E files w = (Inr (0, []), w) \<and>
      benchmark_rust_parallel_batch_with_reading E sched files num_threads w = (Inr (0, []), w)"
    by (auto simp: benchmark_rust_parallel_batch_def benchmark_rust_parallel_batch_with_reading_def)
  have c: "\<not> HAS_XXHASH E \<Longrightarrow>
      benchmark_c_threading E sched files num_threads w = (Inr (0, []), w)"
    by (simp add: benchmark_c_threading_def)
  have d: "(\<not> HAS_RUST E \<or> \<not> HAS_XXHASH E) \<and> 2 \<le> length argv \<and> dir_exists E (argv ! 1) \<and>
    get_files E (argv ! 1) 1000 \<noteq> [] \<Longrightarrow>
      fst (main E argv sched1 sched3 sched4 w) = Inl (SysExit 1) \<and>
      exit_code (fst (main E argv sched1 sched3 sched4 w)) = 1 \<and>
      trace (snd (main E argv sched1 sched3 sched4 w)) = trace w \<and>
      ticks (snd (main E argv sched1 sched3 sched4 w)) = ticks w \<and>
      last (out (snd (main E argv sched1 sched3 sched4 w)))
        = Line ''Error: Both libraries required'' []"
    by (auto simp: main_def Let_def py_div_def py_print_def)
  from a b c d show ?thesis by blast
qed

text \<open>
  The amended C2 on the small corpus without a library.
\<close>

theorem unavailable_strategy_zero_and_main_exits_witness:
  "benchmark_python_threading_rust no_rust [] small_files 2 world0 = (Inr (0, []), world0) \<and>
   benchmark_rust_parallel_batch no_rust small_files world0 = (Inr (0, []), world0) \<and>
   benchmark_rust_parallel_batch_with_reading no_rust [] small_files 2 world0 = (Inr (0, []), world0) \<and>
   benchmark_c_threading (small_corpus\<lparr>HAS_XXHASH := False\<rparr>) [] small_files 2 world0
     = (Inr (0, []), world0) \<and>
   fst (main no_rust [''prog'', ''d''] [] [] [] world0) = Inl (SysExit 1) \<and>
   trace (snd (main no_rust [''prog'', ''d''] [] [] [] world0)) = []"
proof -
  have files: "get_files no_rust ''d'' 1000 = small_files"
    by (simp add: get_files_def py_slice_to_def no_rust_def small_corpus_def joinpath_def
        small_files_def)
  have pre: "\<not> HAS_RUST no_rust" "dir_exists no_rust ''d''"
    by (simp_all add: no_rust_def small_corpus_def)
  have nox: "\<not> HAS_XXHASH (small_corpus\<lparr>HAS_XXHASH := False\<rparr>)" by simp
  from unavailable_strategy_zero_and_main_exits [of no_rust "[]" small_files 2 world0
      "[''prog'', ''d'']" "[]" "[]" "[]"]
    unavailable_strategy_zero_and_main_exits [of "small_corpus\<lparr>HAS_XXHASH := False\<rparr>" "[]"
      small_files 2 world0 "[]" "[]" "[]" "[]"]
    files pre nox
  show ?thesis by (simp add: small_files_def world0_def)
qed

text \<open>
  C3 on the code. The claim: a time of zero gives a throughput reported as undefined,
  and a directory without files a report and exit status 0. On the empty directory
  \<^verbatim>\<open>main\<close> raises \<^verbatim>\<open>ZeroDivisionError\<close> at \<^verbatim>\<open>total_size / len(files)\<close>, before any strategy
  runs: the exit status is 1 and no throughput is printed. And the prints after a
  strategy raise \<^verbatim>\<open>ZeroDivisionError\<close> whenever the strategy's time is zero.
\<close>

theorem zero_files_raise_ZeroDivisionError:
  "get_files empty_dir ''d'' 1000 = [] \<and>
   fst empty_dir_main = Inl ZeroDivisionError \<and> exit_code (fst empty_dir_main) = 1 \<and>
   printed ''Throughput'' (snd empty_dir_main) = [] \<and>
   fst (report_strategy label total_size 0 latencies w) = Inl ZeroDivisionError"
  by (simp add: empty_dir_main_def empty_dir_def main_def small_corpus_def world0_def
      get_files_def py_slice_to_def py_div_def py_print_def printed_def report_strategy_def Let_def)

text \<open>
  The same at the concrete call.
\<close>

theorem zero_files_raise_ZeroDivisionError_witness:
  "exit_code (fst (main empty_dir [''prog'', ''d''] [] [] [] world0)) = 1 \<and>
   fst (report_strategy ''Total time'' 3 0 [] world0) = Inl ZeroDivisionError"
  using zero_files_raise_ZeroDivisionError [of "''Total time''" 3 "[]" world0]
  by (simp add: empty_dir_main_def)

text \<open>
  C4, as stated, at a concrete input. The claim: in every run, also of a per-item
  strategy, no file is read after a hashing call. On one thread the first per-item
  strategy reads \<^verbatim>\<open>d/b\<close> after it has hashed the payload of \<^verbatim>\<open>d/a\<close>.
\<close>

theorem per_item_read_after_hash_counterexample:
  "trace (snd per_item_run) =
     [EvRead ''d/c'', EvRead ''d/a'', EvHash Rust_xxh64 [1], EvRead ''d/b'',
      EvHash Rust_xxh64 [2, 3]] \<and>
   \<not> reads_before_hashing (run_trace world0 (snd per_item_run))"
  unfolding per_item_run_def by code_simp

text \<open>
  C4, amended. In every run of a batch-dispatch strategy the read phase is complete
  before the compute phase begins: the run's events are reads only, followed by the one
  call of \<^verbatim>\<open>batch_xxh64\<close> on all the payloads that are not empty; this under every schedule
  of the hybrid strategy's pool. (The per-item strategies read and hash inside one
  worker call and promise no such order.)
\<close>

theorem batch_reads_before_hashing:
  assumes "0 < num_threads" and "HAS_RUST E" and "batch_xxh64 E = Some batch"
  shows "run_trace w (snd (benchmark_rust_parallel_batch E files w))
           = map EvRead (map fst files) @ [EvBatch (filter (\<lambda>d. d \<noteq> []) (payloads E files))] \<and>
         reads_before_hashing (run_trace w (snd (benchmark_rust_parallel_batch E files w))) \<and>
         list_all is_read
           (butlast (run_trace w
              (snd (benchmark_rust_parallel_batch_with_reading E sched files num_threads w)))) \<and>
         last (run_trace w
              (snd (benchmark_rust_parallel_batch_with_reading E sched files num_threads w)))
           = EvBatch (filter (\<lambda>d. d \<noteq> []) (payloads E files)) \<and>
         reads_before_hashing
           (run_trace w (snd (benchmark_rust_parallel_batch_with_reading E sched files num_threads w)))"
proof -
  let ?dl = "filter (\<lambda>d. d \<noteq> []) (payloads E files)"
  have b: "run_trace w (snd (benchmark_rust_parallel_batch E files w))
           = map EvRead (map fst files) @ [EvBatch ?dl]"
    by (simp add: rust_parallel_batch_spec [OF assms(2,3)] run_trace_def)
  have "list_all is_read (map EvRead (map fst files))"
    by (simp add: list_all_iff)
  then have b': "reads_before_hashing (map EvRead (map fst files) @ [EvBatch ?dl])"
    by (rule reads_then_batch)
  from hybrid_spec [OF assms, of sched files w]
  obtain reads where reads: "list_all is_read reads"
    and h: "run_trace w (snd (benchmark_rust_parallel_batch_with_reading E sched files num_threads w))
           = reads @ [EvBatch ?dl]"
    by (auto simp: run_trace_def)
  from reads have "reads_before_hashing (reads @ [EvBatch ?dl])"
    by (rule reads_then_batch)
  with b b' reads h show ?thesis by simp
qed

text \<open>
  The amended C4 on the small corpus.
\<close>

theorem batch_reads_before_hashing_witness:
  "run_trace world0 (snd batch_run) =
     [EvRead ''d/c'', EvRead ''d/a'', EvRead ''d/b'', EvBatch [[1], [2, 3]]] \<and>
   reads_before_hashing (run_trace world0 (snd batch_run)) \<and>
   reads_before_hashing (run_trace world0 (snd hybrid_run))"
proof -
  have a: "(0::int) < 3" by simp
  have b: "HAS_RUST small_corpus" by (simp add: small_corpus_def)
  have c: "batch_xxh64 small_corpus = Some (map (\<lambda>d. 0))" by (simp add: small_corpus_def)
  have pl: "filter (\<lambda>d. d \<noteq> []) (payloads small_corpus small_files) = [[1], [2, 3]]"
    by (simp add: payloads_def read_file_def small_files_def small_corpus_def)
  have paths: "map EvRead (map fst small_files) = [EvRead ''d/c'', EvRead ''d/a'', EvRead ''d/b'']"
    by (simp add: small_files_def)
  from batch_reads_before_hashing [OF a b c, of world0 small_files "[0, 1, 1, 1, 0, 0]"]
  show ?thesis
    unfolding batch_run_def hybrid_run_def pl paths append.simps by blast
qed

text \<open>
  C6. For every corpus and under every schedule, a per-item strategy whose primitive is
  there returns one latency per corpus item, in corpus order, with latency zero for
  every item whose payload is empty; and it never calls the primitive on an empty
  payload.
\<close>

theorem per_item_latencies_aligned:
  assumes "0 < num_threads"
  shows "(HAS_RUST E \<longrightarrow>
           (\<exists>t latencies w'.
              benchmark_python_threading_rust E sched files num_threads w
                = (Inr (t, latencies), w') \<and>
              length latencies = length files \<and> latencies_aligned E files latencies \<and>
              EvHash Rust_xxh64 [] \<notin> set (run_trace w w'))) \<and>
         (HAS_XXHASH E \<longrightarrow>
           (\<exists>t latencies w'.
              benchmark_c_threading E sched files num_threads w
                = (Inr (t, latencies), w') \<and>
              length latencies = length files \<and> latencies_aligned E files latencies \<and>
              EvHash C_xxh64_digest [] \<notin> set (run_trace w w')))"
proof -
  have len: "\<And>latencies. latencies_aligned E files latencies \<Longrightarrow> length latencies = length files"
    by (simp add: latencies_aligned_def list_all2_lengthD)
  from per_item_strategy [OF assms, of E w sched Rust_xxh64 files] len
  have a: "HAS_RUST E \<Longrightarrow> \<exists>t latencies w'.
      benchmark_python_threading_rust E sched files num_threads w = (Inr (t, latencies), w') \<and>
      length latencies = length files \<and> latencies_aligned E files latencies \<and>
      EvHash Rust_xxh64 [] \<notin> set (run_trace w w')"
    unfolding benchmark_python_threading_rust_def by auto
  from per_item_strategy [OF assms, of E w sched C_xxh64_digest files] len
  have b: "HAS_XXHASH E \<Longrightarrow> \<exists>t latencies w'.
      benchmark_c_threading E sched files num_threads w = (Inr (t, latencies), w') \<and>
      length latencies = length files \<and> latencies_aligned E files latencies \<and>
      EvHash C_xxh64_digest [] \<notin> set (run_trace w w')"
    unfolding benchmark_c_threading_def by auto
  from a b show ?thesis by blast
qed

text \<open>
  C6 on the small corpus, whose first file is empty: latencies 0, 8 and 12 seconds in microseconds.
\<close>

theorem per_item_latencies_aligned_witness:
  "fst (benchmark_python_threading_rust small_corpus [1, 0, 1, 0, 1, 0, 1, 0] small_files 2 world0)
     = Inr (25, [0, 8000000, 12000000]) \<and>
   latencies_aligned small_corpus small_files [0, 8000000, 12000000] \<and>
   (\<exists>t latencies w'.
      benchmark_c_threading small_corpus [1, 0, 1, 0, 1, 0, 1, 0] small_files 2 world0
        = (Inr (t, latencies), w') \<and>
      length latencies = length small_files \<and> latencies_aligned small_corpus small_files latencies)"
proof -
  have a: "(0::int) < 2" by simp
  have b: "HAS_RUST small_corpus" "HAS_XXHASH small_corpus" by (simp_all add: small_corpus_def)
  have v: "fst (benchmark_python_threading_rust small_corpus [1, 0, 1, 0, 1, 0, 1, 0] small_files 2 world0)
     = Inr (25, [0, 8000000, 12000000])"
    by code_simp
  from per_item_latencies_aligned [OF a, of small_corpus "[1, 0, 1, 0, 1, 0, 1, 0]" small_files world0] b
  obtain t latencies w' where r: "benchmark_python_threading_rust small_corpus [1, 0, 1, 0, 1, 0, 1, 0]
      small_files 2 world0 = (Inr (t, latencies), w')"
    and al: "latencies_aligned small_corpus small_files latencies"
    and c: "\<exists>t latencies w'.
      benchmark_c_threading small_corpus [1, 0, 1, 0, 1, 0, 1, 0] small_files 2 world0
        = (Inr (t, latencies), w') \<and>
      length latencies = length small_files \<and> latencies_aligned small_corpus small_files latencies"
    by blast
  from r v have "latencies = [0, 8000000, 12000000]" by simp
  with al v c show ?thesis by blast
qed

text \<open>
  C7. For every corpus and under every schedule of the pool, the parallel read returns
  the payloads in corpus order: \<^verbatim>\<open>list(executor.map(read_worker, ...))\<close> is the list of
  the items' payloads, one per item and in the items' order, and the list handed on is
  that list without its empty payloads, the order unchanged.
\<close>

theorem parallel_read_keeps_corpus_order:
  assumes "0 < num_threads"
  shows "fst (executor_map E num_threads sched read_worker (map fst files) w)
           = Inr (payloads E files) \<and>
         fst (read_files_parallel E sched files num_threads w)
           = Inr (filter (\<lambda>d. d \<noteq> []) (payloads E files))"
proof -
  obtain res w' where m: "executor_map E num_threads sched read_worker (map fst files) w = (res, w')"
    by (cases "executor_map E num_threads sched read_worker (map fst files) w") auto
  obtain res2 w2 where r: "read_files_parallel E sched files num_threads w = (res2, w2)"
    by (cases "read_files_parallel E sched files num_threads w") auto
  from executor_map_read_worker [OF assms m] read_files_parallel_spec [OF assms r] m r
  show ?thesis by (simp add: payloads_def)
qed

text \<open>
  C7 on the small corpus, under a schedule that finishes the second call before the first.
\<close>

theorem parallel_read_keeps_corpus_order_witness:
  "payloads small_corpus small_files = [[], [1], [2, 3]] \<and>
   fst (executor_map small_corpus 3 [0, 1, 1, 1, 0, 0] read_worker (map fst small_files) world0)
     = Inr [[], [1], [2, 3]] \<and>
   fst (read_files_parallel small_corpus [0, 1, 1, 1, 0, 0] small_files 3 world0)
     = Inr [[1], [2, 3]]"
proof -
  have a: "(0::int) < 3" by simp
  have pl: "payloads small_corpus small_files = [[], [1], [2, 3]]"
    by (simp add: payloads_def read_file_def small_files_def small_corpus_def)
  from parallel_read_keeps_corpus_order [OF a, of small_corpus "[0, 1, 1, 1, 0, 0]" small_files world0]
  show ?thesis by (simp add: pl)
qed

text \<open>
  C8. In every batch run that returns at least one digest, the latency list has one
  entry per returned digest, and every entry is the elapsed compute time (the returned
  time, in microseconds) divided by the number of returned digests.
\<close>

theorem batch_latencies_uniform:
  assumes "0 < num_threads" and "HAS_RUST E" and "batch_xxh64 E = Some batch"
    and "batch_results E batch files \<noteq> []"
  shows "(\<exists>t latencies w'.
            benchmark_rust_parallel_batch E files w = (Inr (t, latencies), w') \<and>
            t = clock E (ticks w + 3) - clock E (ticks w + 2) \<and>
            length latencies = length (batch_results E batch files) \<and>
            (\<forall>l \<in> set latencies. l = t * 1000000 / real (length (batch_results E batch files)))) \<and>
         (\<exists>t latencies w'.
            benchmark_rust_parallel_batch_with_reading E sched files num_threads w
              = (Inr (t, latencies), w') \<and>
            t = clock E (ticks w + 3) - clock E (ticks w + 2) \<and>
            length latencies = length (batch_results E batch files) \<and>
            (\<forall>l \<in> set latencies. l = t * 1000000 / real (length (batch_results E batch files))))"
  using rust_parallel_batch_spec [OF assms(2,3), of files w]
    hybrid_spec [OF assms(1,2,3), of sched files w]
  by (auto simp: batch_results_def)

text \<open>
  C8 on the small corpus: two digests, 5 seconds, 2500000 microseconds each.
\<close>

theorem batch_latencies_uniform_witness:
  "batch_results small_corpus (map (\<lambda>d. 0)) small_files = [0, 0] \<and>
   fst batch_run = Inr (5, [2500000, 2500000]) \<and>
   fst hybrid_run = Inr (5, [2500000, 2500000])"
proof -
  have a: "(0::int) < 3" by simp
  have b: "HAS_RUST small_corpus" by (simp add: small_corpus_def)
  have c: "batch_xxh64 small_corpus = Some (map (\<lambda>d. 0))" by (simp add: small_corpus_def)
  have r: "batch_results small_corpus (map (\<lambda>d. 0)) small_files = [0, 0]"
    by (simp add: batch_results_def payloads_def read_file_def small_files_def small_corpus_def)
  then have d: "batch_results small_corpus (map (\<lambda>d. 0)) small_files \<noteq> []" by simp
  have clk: "clock small_corpus (ticks world0 + 3) - clock small_corpus (ticks world0 + 2) = 5"
    by (simp add: small_corpus_def world0_def)
  from batch_latencies_uniform [OF a b c d, of world0 "[0, 1, 1, 1, 0, 0]"]
  obtain l1 w1 l2 w2 where
    b1: "benchmark_rust_parallel_batch small_corpus small_files world0 = (Inr (5, l1), w1)"
    and n1: "length l1 = 2" and u1: "\<forall>l \<in> set l1. l = 5 * 1000000 / 2"
    and b2: "benchmark_rust_parallel_batch_with_reading small_corpus [0, 1, 1, 1, 0, 0] small_files 3 world0
       = (Inr (5, l2), w2)"
    and n2: "length l2 = 2" and u2: "\<forall>l \<in> set l2. l = 5 * 1000000 / 2"
    unfolding r clk by auto
  have two: "\<And>l::real list. length l = 2 \<Longrightarrow> \<forall>x \<in> set l. x = 5 * 1000000 / 2 \<Longrightarrow>
      l = [2500000, 2500000]"
  proof -
    fix l :: "real list"
    assume "length l = 2" and all: "\<forall>x \<in> set l. x = 5 * 1000000 / 2"
    then obtain x y where "l = [x, y]"
      by (cases l; cases "tl l") auto
    with all show "l = [2500000, 2500000]" by simp
  qed
  from two [OF n1 u1] two [OF n2 u2] b1 b2 r show ?thesis
    by (simp add: batch_run_def hybrid_run_def)
qed

text \<open>
  C10. Neither batch strategy ever raises \<^verbatim>\<open>ZeroDivisionError\<close>: the division by the
  number of digests happens only when there is one. When the batch call returns no
  digest, the strategy returns the empty latency list.
\<close>

theorem batch_latency_division_guarded:
  "fst (benchmark_rust_parallel_batch E files w) \<noteq> Inl ZeroDivisionError \<and>
   fst (benchmark_rust_parallel_batch_with_reading E sched files num_threads w)
     \<noteq> Inl ZeroDivisionError \<and>
   (HAS_RUST E \<and> batch_xxh64 E = Some batch \<and> batch_results E batch files = [] \<longrightarrow>
      fst (benchmark_rust_parallel_batch E files w)
        = Inr (clock E (ticks w + 3) - clock E (ticks w + 2), []) \<and>
      (0 < num_threads \<longrightarrow>
         fst (benchmark_rust_parallel_batch_with_reading E sched files num_threads w)
           = Inr (clock E (ticks w + 3) - clock E (ticks w + 2), [])))"
proof -
  have a: "fst (benchmark_rust_parallel_batch E files w) \<noteq> Inl ZeroDivisionError"
  proof (cases "HAS_RUST E \<and> batch_xxh64 E \<noteq> None")
    case True
    then obtain b where "HAS_RUST E" "batch_xxh64 E = Some b" by auto
    from rust_parallel_batch_spec [OF this, of files w] show ?thesis by simp
  next
    case False
    then show ?thesis by (auto simp: benchmark_rust_parallel_batch_def)
  qed
  have b: "fst (benchmark_rust_parallel_batch_with_reading E sched files num_threads w)
     \<noteq> Inl ZeroDivisionError"
  proof (cases "HAS_RUST E \<and> batch_xxh64 E \<noteq> None")
    case True
    then obtain b where av: "HAS_RUST E" "batch_xxh64 E = Some b" by auto
    show ?thesis
    proof (cases "0 < num_threads")
      case True
      from hybrid_spec [OF True av, of sched files w] show ?thesis by auto
    next
      case False
      with av show ?thesis
        by (simp add: benchmark_rust_parallel_batch_with_reading_def read_files_parallel_def
            executor_map_def perf_counter_def)
    qed
  next
    case False
    then show ?thesis by (auto simp: benchmark_rust_parallel_batch_with_reading_def)
  qed
  have c: "HAS_RUST E \<and> batch_xxh64 E = Some batch \<and> batch_results E batch files = [] \<Longrightarrow>
      fst (benchmark_rust_parallel_batch E files w)
        = Inr (clock E (ticks w + 3) - clock E (ticks w + 2), [])"
    using rust_parallel_batch_spec [of E batch files w] by (simp add: batch_results_def)
  have d: "HAS_RUST E \<and> batch_xxh64 E = Some batch \<and> batch_results E batch files = [] \<Longrightarrow>
      0 < num_threads \<Longrightarrow>
      fst (benchmark_rust_parallel_batch_with_reading E sched files num_threads w)
        = Inr (clock E (ticks w + 3) - clock E (ticks w + 2), [])"
    using hybrid_spec [of num_threads E batch sched files w] by (auto simp: batch_results_def)
  from a b c d show ?thesis by blast
qed

text \<open>
  C10 on a corpus whose only file is empty.
\<close>

theorem batch_latency_division_guarded_witness:
  "batch_results small_corpus (map (\<lambda>d. 0)) [(''d/c'', 0)] = [] \<and>
   fst (benchmark_rust_parallel_batch small_corpus [(''d/c'', 0)] world0) = Inr (5, []) \<and>
   fst (benchmark_rust_parallel_batch_with_reading small_corpus [0, 0] [(''d/c'', 0)] 2 world0)
     = Inr (5, [])"
proof -
  have b: "HAS_RUST small_corpus" by (simp add: small_corpus_def)
  have c: "batch_xxh64 small_corpus = Some (map (\<lambda>d. 0))" by (simp add: small_corpus_def)
  have r: "batch_results small_corpus (map (\<lambda>d. 0)) [(''d/c'', 0)] = []"
    by (simp add: batch_results_def payloads_def read_file_def small_corpus_def)
  have clk: "clock small_corpus (ticks world0 + 3) - clock small_corpus (ticks world0 + 2) = 5"
    by (simp add: small_corpus_def world0_def)
  from batch_latency_division_guarded [of small_corpus "[(''d/c'', 0)]" world0 "[0, 0]" 2
      "map (\<lambda>d. 0)"] b c r
  show ?thesis unfolding clk by simp
qed

end
